theory Spec2Isabelle
  imports Main "HOL-Library.AList"
begin

section \<open>Strings\<close>

text \<open>
  A Python \<open>str\<close> is a sequence of Unicode code points; it is modelled as a list of
  natural numbers, one per code point. A literal of the source is written with \<open>ustr\<close>,
  which maps each character of an ASCII literal to its code point.
\<close>

type_synonym ustring = "nat list"

definition ustr :: "string \<Rightarrow> ustring" where
  "ustr s = map of_char s"

text \<open>
  \<open>str.strip()\<close> without argument removes leading and trailing whitespace, where
  whitespace is what \<open>str.isspace\<close> accepts: the code points below.
\<close>

definition isspace :: "nat \<Rightarrow> bool" where
  "isspace c = ((9 \<le> c \<and> c \<le> 13) \<or> (28 \<le> c \<and> c \<le> 32) \<or> c = 133 \<or> c = 160
     \<or> c = 5760 \<or> (8192 \<le> c \<and> c \<le> 8202) \<or> c = 8232 \<or> c = 8233 \<or> c = 8239
     \<or> c = 8287 \<or> c = 12288)"

definition lstrip :: "ustring \<Rightarrow> ustring" where
  "lstrip s = dropWhile isspace s"

definition rstrip :: "ustring \<Rightarrow> ustring" where
  "rstrip s = rev (dropWhile isspace (rev s))"

definition strip :: "ustring \<Rightarrow> ustring" where
  "strip s = rstrip (lstrip s)"


section \<open>Exceptions\<close>

text \<open>
  An exception value stands for an instance of Python's \<open>Exception\<close>. It carries the
  class as far as the handlers of the source tell classes apart (\<open>except IndexError\<close> in
  \<open>process_input\<close>), and the text that \<open>str(e)\<close> gives.
\<close>

datatype exc_class = IndexError | KeyError | OtherException

datatype exc = Exc (cls: exc_class) (str_of: ustring)

section \<open>The services of the Document Q&A tool\<close>

text \<open>
  The libraries \<open>document_qna_tool\<close> calls are parameters of the model, each one a
  function that gives a value or raises:
  \<^item> \<open>fitz_open\<close> is \<open>fitz.open(pdf_path)\<close>; the document it gives is the list of its
    pages, and a page is what \<open>page.get_text()\<close> does on it: the text, or an exception;
  \<^item> \<open>encode\<close> is \<open>embedding_model.encode(_, convert_to_tensor=True)\<close>, called once
    with the list of chunks and once with the question; \<open>'v\<close> is the tensor it gives;
  \<^item> \<open>cos_sim\<close> is \<open>util.pytorch_cos_sim(a, b)[0]\<close>, the row of scores of the question
    against each chunk; \<open>'s\<close> is the type of a score;
  \<^item> \<open>qa_pipeline\<close> is the text-generation pipeline, called with a prompt and
    \<open>max_new_tokens\<close>; it gives a list of dictionaries.
\<close>

type_synonym page = "exc + ustring"

datatype sentences = Sentence ustring | Sentences "ustring list"

type_synonym generated = "(ustring \<times> ustring) list"

record ('v, 's) services =
  fitz_open :: "ustring \<Rightarrow> exc + page list"
  encode :: "sentences \<Rightarrow> exc + 'v"
  cos_sim :: "'v \<Rightarrow> 'v \<Rightarrow> exc + 's list"
  qa_pipeline :: "ustring \<Rightarrow> nat \<Rightarrow> exc + generated list"

text \<open>
  Every call of a service is recorded, in order, so that what the tool did to the document
  and which services it reached can be stated.
\<close>

datatype event =
    Open ustring
  | GetText nat
  | Close
  | Encode sentences
  | CosSim
  | Generate ustring nat

text \<open>
  A computation takes the events so far and gives its outcome, a value or a raised
  exception, together with the events extended by its own.
\<close>

type_synonym 'a io = "event list \<Rightarrow> (exc + 'a) \<times> event list"

definition ret :: "'a \<Rightarrow> 'a io" where
  "ret a tr = (Inr a, tr)"

definition lift :: "exc + 'a \<Rightarrow> 'a io" where
  "lift r tr = (r, tr)"

definition call :: "event \<Rightarrow> exc + 'a \<Rightarrow> 'a io" where
  "call ev r tr = (r, tr @ [ev])"

definition bind :: "'a io \<Rightarrow> ('a \<Rightarrow> 'b io) \<Rightarrow> 'b io" where
  "bind m f tr = (case m tr of (Inl e, tr') \<Rightarrow> (Inl e, tr') | (Inr a, tr') \<Rightarrow> f a tr')"

section \<open>Python and tensor operations\<close>

text \<open>\<open>xs[i]\<close> on a Python list, for an index that is not negative.\<close>

definition item :: "'a list \<Rightarrow> nat \<Rightarrow> exc + 'a" where
  "item xs i = (if i < length xs then Inr (xs ! i)
                else Inl (Exc IndexError (ustr ''list index out of range'')))"

text \<open>\<open>d[k]\<close> on a dictionary; the text of a \<open>KeyError\<close> is the key between quotes.\<close>

definition getitem :: "(ustring \<times> 'a) list \<Rightarrow> ustring \<Rightarrow> exc + 'a" where
  "getitem d k = (case map_of d k of Some v \<Rightarrow> Inr v
                  | None \<Rightarrow> Inl (Exc KeyError ([39] @ k @ [39])))"

text \<open>
  \<open>scores.argmax()\<close> is \<open>torch.Tensor.argmax\<close>, a library function: it gives the index
  of the maximal value, the first one where several values are maximal, and raises on a
  tensor with no element. Scores are compared as elements of a linear order.
\<close>

fun argmax_from :: "'s::linorder list \<Rightarrow> nat \<Rightarrow> nat \<Rightarrow> 's \<Rightarrow> nat" where
  "argmax_from [] i best_i best = best_i"
| "argmax_from (x # xs) i best_i best =
     (if best < x then argmax_from xs (Suc i) i x else argmax_from xs (Suc i) best_i best)"

definition argmax :: "'s::linorder list \<Rightarrow> exc + nat" where
  "argmax scores = (case scores of
       [] \<Rightarrow> Inl (Exc IndexError (ustr ''argmax(): Expected reduction dim to be specified for input.numel() == 0.''))
     | x # xs \<Rightarrow> Inr (argmax_from xs 1 0 x))"

section \<open>document_qna_tool\<close>

text \<open>Step 1, the loop over the pages: \<open>i\<close> is the index of the next page.\<close>

fun get_pages :: "page list \<Rightarrow> nat \<Rightarrow> ustring list \<Rightarrow> ustring list io" where
  "get_pages [] i text_chunks = ret text_chunks"
| "get_pages (page # doc) i text_chunks =
     bind (call (GetText i) page) (\<lambda>text.
       get_pages doc (Suc i) (if strip text \<noteq> [] then text_chunks @ [text] else text_chunks))"

definition extract_text :: "('v, 's) services \<Rightarrow> ustring \<Rightarrow> ustring list io" where
  "extract_text env pdf_path =
     bind (call (Open pdf_path) (fitz_open env pdf_path)) (\<lambda>doc.
     bind (get_pages doc 0 []) (\<lambda>text_chunks.
     bind (call Close (Inr ())) (\<lambda>_.
     ret text_chunks)))"

text \<open>Step 2, the semantic search: it gives \<open>best_context\<close>.\<close>

definition semantic_search ::
  "('v, 's::linorder) services \<Rightarrow> ustring list \<Rightarrow> ustring \<Rightarrow> ustring io" where
  "semantic_search env text_chunks question =
     bind (call (Encode (Sentences text_chunks)) (encode env (Sentences text_chunks))) (\<lambda>embeddings.
     bind (call (Encode (Sentence question)) (encode env (Sentence question))) (\<lambda>question_embedding.
     bind (call CosSim (cos_sim env question_embedding embeddings)) (\<lambda>scores.
     bind (lift (argmax scores)) (\<lambda>best_match_idx.
     lift (item text_chunks best_match_idx)))))"

text \<open>Step 3, the answer.\<close>

definition make_prompt :: "ustring \<Rightarrow> ustring \<Rightarrow> ustring" where
  "make_prompt best_context question =
     ustr ''Context: '' @ best_context @ [10] @ ustr ''Question: '' @ question"

definition answer_question ::
  "('v, 's) services \<Rightarrow> ustring \<Rightarrow> ustring \<Rightarrow> ustring io" where
  "answer_question env best_context question =
     (let prompt = make_prompt best_context question in
      bind (call (Generate prompt 100) (qa_pipeline env prompt 100)) (\<lambda>results.
      bind (lift (item results 0)) (\<lambda>result.
      bind (lift (getitem result (ustr ''generated_text''))) (\<lambda>answer.
      ret (ustr ''Answer: '' @ strip answer)))))"

text \<open>The body of the \<open>try\<close> block.\<close>

definition qna_body :: "('v, 's::linorder) services \<Rightarrow> ustring \<Rightarrow> ustring \<Rightarrow> ustring io" where
  "qna_body env pdf_path question =
     bind (extract_text env pdf_path) (\<lambda>text_chunks.
       if text_chunks = [] then ret (ustr ''No text found in the PDF.'')
       else bind (semantic_search env text_chunks question) (\<lambda>best_context.
              answer_question env best_context question))"

text \<open>
  The tool: the body under \<open>except Exception as e\<close>. It gives the string returned and
  the events of the run.
\<close>

definition document_qna_tool ::
  "('v, 's::linorder) services \<Rightarrow> ustring \<Rightarrow> ustring \<Rightarrow> ustring \<times> event list" where
  "document_qna_tool env pdf_path question =
     (case qna_body env pdf_path question [] of
        (Inr s, tr) \<Rightarrow> (s, tr)
      | (Inl e, tr) \<Rightarrow> (ustr ''Error processing document QnA: '' @ str_of e, tr))"

section \<open>The agent and process_input\<close>

text \<open>
  A tool of the agent is what calling it with two positional string arguments does: it
  gives a string or raises. The uploaded file is an object with a \<open>name\<close>, the path of
  the file. Printing to the console is left out.
\<close>

type_synonym tool = "ustring \<Rightarrow> ustring \<Rightarrow> exc + ustring"

record gr_file =
  name :: ustring

text \<open>
  \<open>process_input\<close> subscripts \<open>agent.tools\<close> with the integer 4, and what a subscript does
  depends on the object: on a list it indexes, and raises \<open>IndexError\<close> out of range; on a
  dictionary it looks the key up, and raises \<open>KeyError\<close> when the key is absent. A key of
  a dictionary is a string or an integer; the text of a \<open>KeyError\<close> on an integer key is
  the integer in decimal.
\<close>

datatype py_key = StrKey ustring | IntKey int

datatype 'a container = PyList "'a list" | PyDict "(py_key \<times> 'a) list"

fun str_nat :: "nat \<Rightarrow> ustring" where
  "str_nat n = (if n < 10 then [48 + n] else str_nat (n div 10) @ [48 + n mod 10])"

declare str_nat.simps [simp del]

fun subscript :: "'a container \<Rightarrow> nat \<Rightarrow> exc + 'a" where
  "subscript (PyList xs) i = item xs i"
| "subscript (PyDict d) i =
     (case map_of d (IntKey (int i)) of
        Some v \<Rightarrow> Inr v
      | None \<Rightarrow> Inl (Exc KeyError (str_nat i)))"

text \<open>
  The agent is its \<open>tools\<close> and its \<open>run\<close> method, whose response is a string (the
  docstring of \<open>process_input\<close>).
\<close>

record code_agent =
  tools :: "tool container"
  run :: "ustring \<Rightarrow> exc + ustring"

text \<open>\<open>query and query.strip()\<close>, for a query that is a string or \<open>None\<close>.\<close>

fun has_text :: "ustring option \<Rightarrow> bool" where
  "has_text None = False"
| "has_text (Some query) = (query \<noteq> [] \<and> strip query \<noteq> [])"

fun process_input :: "code_agent \<Rightarrow> ustring option \<Rightarrow> gr_file option \<Rightarrow> ustring" where
  "process_input agent query pdf_file =
     (if pdf_file \<noteq> None \<and> has_text query then
        (case (case subscript (tools agent) 4 of
                 Inl e \<Rightarrow> Inl e
               | Inr tool \<Rightarrow> tool (name (the pdf_file)) (the query)) of
           Inr response \<Rightarrow> response
         | Inl e \<Rightarrow>
             if cls e = IndexError then
               ustr ''Error: Document Q&A tool not found at the expected index (4). Check agent tool setup in app.py.''
             else ustr ''An error occurred during Document Q&A: '' @ str_of e)
      else if has_text query then
        (case run agent (the query) of
           Inr response \<Rightarrow> response
         | Inl e \<Rightarrow> ustr ''An error occurred while processing your request: '' @ str_of e)
      else if pdf_file \<noteq> None then
        ustr ''Please enter a question in the textbox to ask about the uploaded PDF.''
      else ustr ''Please enter a request or upload a document for analysis.'')"

text \<open>
  The agent of \<open>app.py\<close> is a \<open>CodeAgent\<close> of the smolagents library, built from the list
  of its tools. The class is not part of the repository; by its documentation it keeps
  the tools in a dictionary keyed by the name of each tool,
  \<open>{tool.name: tool for tool in tools}\<close>, and that dictionary is \<open>agent.tools\<close>. A tool
  is given here with its name. The tools defined in \<open>app.py\<close> are named after their
  functions; the Document Q&A tool is \<open>document_qna_tool\<close> above, which gives its string.
  The other tools, the names of those that \<open>app.py\<close> imports, and the agent's \<open>run\<close> are
  parameters.
\<close>

definition tools_dict :: "(ustring \<times> tool) list \<Rightarrow> (py_key \<times> tool) list" where
  "tools_dict ts = foldl (\<lambda>d (n, t). AList.update (StrKey n) t d) [] ts"

definition document_qna :: "('v, 's::linorder) services \<Rightarrow> tool" where
  "document_qna env pdf_path question = Inr (fst (document_qna_tool env pdf_path question))"

definition registered_tools ::
  "('v, 's::linorder) services \<Rightarrow> tool \<Rightarrow> tool \<Rightarrow> ustring \<times> tool \<Rightarrow> ustring \<times> tool
     \<Rightarrow> ustring \<times> tool \<Rightarrow> (ustring \<times> tool) list" where
  "registered_tools env get_current_time_in_timezone get_current_weather
       image_generation_tool search_tool final_answer =
     [(ustr ''get_current_time_in_timezone'', get_current_time_in_timezone),
      (ustr ''get_current_weather'', get_current_weather),
      image_generation_tool,
      search_tool,
      (ustr ''document_qna_tool'', document_qna env),
      final_answer]"

definition agent ::
  "('v, 's::linorder) services \<Rightarrow> tool \<Rightarrow> tool \<Rightarrow> ustring \<times> tool \<Rightarrow> ustring \<times> tool
     \<Rightarrow> ustring \<times> tool \<Rightarrow> (ustring \<Rightarrow> exc + ustring) \<Rightarrow> code_agent" where
  "agent env get_current_time_in_timezone get_current_weather image_generation_tool
       search_tool final_answer agent_run =
     \<lparr>tools = PyDict (tools_dict (registered_tools env get_current_time_in_timezone
                 get_current_weather image_generation_tool search_tool final_answer)),
      run = agent_run\<rparr>"

section \<open>Stub services\<close>

text \<open>
  Services that answer with fixed outcomes, whatever they are asked: a document, a row of
  scores and the results of the generation. The runs below use them.
\<close>

definition stub ::
  "exc + page list \<Rightarrow> exc + int list \<Rightarrow> exc + generated list \<Rightarrow> (nat, int) services" where
  "stub doc scores results =
     \<lparr>fitz_open = (\<lambda>_. doc), encode = (\<lambda>_. Inr 0), cos_sim = (\<lambda>_ _. scores),
      qa_pipeline = (\<lambda>_ _. results)\<rparr>"

section \<open>The page loop and the steps\<close>

lemma get_pages_readable:
  "get_pages (map Inr texts) i acc tr =
     (Inr (acc @ filter (\<lambda>t. strip t \<noteq> []) texts), tr @ map GetText [i ..< i + length texts])"
proof (induction texts arbitrary: i acc tr)
  case Nil
  show ?case by (simp add: ret_def)
next
  case (Cons t ts)
  show ?case
    by (simp add: bind_def call_def Cons.IH upt_conv_Cons del: upt_Suc)
qed

lemma get_pages_unreadable:
  "get_pages (map Inr texts @ Inl e # rest) i acc tr =
     (Inl e, tr @ map GetText [i ..< Suc (i + length texts)])"
proof (induction texts arbitrary: i acc tr)
  case Nil
  show ?case by (simp add: bind_def call_def)
next
  case (Cons t ts)
  show ?case
    by (simp add: bind_def call_def Cons.IH upt_conv_Cons del: upt_Suc)
qed

lemma extract_text_readable:
  assumes "fitz_open env pdf_path = Inr (map Inr texts)"
  shows "extract_text env pdf_path tr =
     (Inr (filter (\<lambda>t. strip t \<noteq> []) texts),
      tr @ Open pdf_path # map GetText [0 ..< length texts] @ [Close])"
  using assms
  by (simp add: extract_text_def bind_def call_def ret_def get_pages_readable)

lemma extract_text_unreadable:
  assumes "fitz_open env pdf_path = Inr (map Inr texts @ Inl e # rest)"
  shows "extract_text env pdf_path tr =
     (Inl e, tr @ Open pdf_path # map GetText [0 ..< Suc (length texts)])"
  using assms
  by (simp add: extract_text_def bind_def call_def get_pages_unreadable)

lemma extract_text_not_opened:
  assumes "fitz_open env pdf_path = Inl e"
  shows "extract_text env pdf_path tr = (Inl e, tr @ [Open pdf_path])"
  using assms
  by (simp add: extract_text_def bind_def call_def)

text \<open>
  The loop of \<open>argmax\<close> keeps, for the scores read so far, the index of the first maximal
  one.
\<close>

lemma argmax_from_inv:
  assumes "bi < length pre" "pre ! bi = b" "\<forall>j<length pre. pre ! j \<le> b" "\<forall>j<bi. pre ! j < b"
  shows "let r = argmax_from xs (length pre) bi b in
           r < length (pre @ xs) \<and> (\<forall>j<length (pre @ xs). (pre @ xs) ! j \<le> (pre @ xs) ! r)
           \<and> (\<forall>j<r. (pre @ xs) ! j < (pre @ xs) ! r)"
  using assms
proof (induction xs arbitrary: pre bi b)
  case Nil
  then show ?case by simp
next
  case (Cons x xs)
  let ?P = "\<lambda>r. r < length ((pre @ [x]) @ xs)
          \<and> (\<forall>j<length ((pre @ [x]) @ xs). ((pre @ [x]) @ xs) ! j \<le> ((pre @ [x]) @ xs) ! r)
          \<and> (\<forall>j<r. ((pre @ [x]) @ xs) ! j < ((pre @ [x]) @ xs) ! r)"
  show ?case
  proof (cases "b < x")
    case True
    have "let r = argmax_from xs (length (pre @ [x])) (length pre) x in ?P r"
    proof (rule Cons.IH)
      show "length pre < length (pre @ [x])" by simp
      show "(pre @ [x]) ! length pre = x" by simp
      show "\<forall>j<length (pre @ [x]). (pre @ [x]) ! j \<le> x"
        using Cons.prems(3) True
        by (auto simp: nth_append less_Suc_eq intro: order.strict_implies_order order.trans)
      show "\<forall>j<length pre. (pre @ [x]) ! j < x"
        using Cons.prems(3) True by (auto simp: nth_append)
    qed
    with True show ?thesis by simp
  next
    case False
    have "let r = argmax_from xs (length (pre @ [x])) bi b in ?P r"
    proof (rule Cons.IH)
      show "bi < length (pre @ [x])" using Cons.prems(1) by simp
      show "(pre @ [x]) ! bi = b" using Cons.prems(1,2) by (simp add: nth_append)
      show "\<forall>j<length (pre @ [x]). (pre @ [x]) ! j \<le> b"
        using Cons.prems(3) False by (auto simp: nth_append less_Suc_eq)
      show "\<forall>j<bi. (pre @ [x]) ! j < b"
        using Cons.prems(1,4) by (auto simp: nth_append)
    qed
    with False show ?thesis by simp
  qed
qed

lemma argmax_first_max:
  assumes "scores \<noteq> []"
  shows "\<exists>k. argmax scores = Inr k \<and> k < length scores
            \<and> (\<forall>j<length scores. scores ! j \<le> scores ! k) \<and> (\<forall>j<k. scores ! j < scores ! k)"
proof -
  obtain x xs where sc: "scores = x # xs" using assms by (cases scores) auto
  have "let r = argmax_from xs (length [x]) 0 x in
           r < length ([x] @ xs) \<and> (\<forall>j<length ([x] @ xs). ([x] @ xs) ! j \<le> ([x] @ xs) ! r)
           \<and> (\<forall>j<r. ([x] @ xs) ! j < ([x] @ xs) ! r)"
    by (rule argmax_from_inv) simp_all
  then show ?thesis by (simp add: sc argmax_def Let_def)
qed

lemma semantic_search_scored:
  assumes "encode env (Sentences chunks) = Inr embeddings"
    and "encode env (Sentence question) = Inr question_embedding"
    and "cos_sim env question_embedding embeddings = Inr scores"
  shows "semantic_search env chunks question tr =
     ((case argmax scores of Inl e \<Rightarrow> Inl e | Inr k \<Rightarrow> item chunks k),
      tr @ [Encode (Sentences chunks), Encode (Sentence question), CosSim])"
  using assms
  by (simp add: semantic_search_def bind_def call_def lift_def split: sum.splits)

lemma answer_question_generated:
  assumes "qa_pipeline env (make_prompt best_context question) 100 = Inr results"
  shows "answer_question env best_context question tr =
     ((case item results 0 of Inl e \<Rightarrow> Inl e
       | Inr result \<Rightarrow> (case getitem result (ustr ''generated_text'') of Inl e \<Rightarrow> Inl e
           | Inr answer \<Rightarrow> Inr (ustr ''Answer: '' @ strip answer))),
      tr @ [Generate (make_prompt best_context question) 100])"
  using assms
  by (simp add: answer_question_def Let_def bind_def call_def lift_def ret_def split: sum.splits)

lemma answer_question_failed:
  assumes "qa_pipeline env (make_prompt best_context question) 100 = Inl e"
  shows "answer_question env best_context question tr =
     (Inl e, tr @ [Generate (make_prompt best_context question) 100])"
  using assms
  by (simp add: answer_question_def Let_def bind_def call_def)

text \<open>
  A run whose document is readable and has a chunk, and whose embeddings and scores are
  computed, one score per chunk: the search selects the chunk of the first maximal score,
  and the tool goes on to the answer with that chunk.
\<close>

lemma run_selects_first_max:
  assumes "fitz_open env pdf_path = Inr (map Inr texts)"
    and "chunks = filter (\<lambda>t. strip t \<noteq> []) texts"
    and "chunks \<noteq> []"
    and "encode env (Sentences chunks) = Inr embeddings"
    and "encode env (Sentence question) = Inr question_embedding"
    and "cos_sim env question_embedding embeddings = Inr scores"
    and "length scores = length chunks"
  shows "\<exists>k<length chunks.
           (\<forall>j<length chunks. scores ! j \<le> scores ! k)
         \<and> (\<forall>j<k. scores ! j < scores ! k)
         \<and> argmax scores = Inr k
         \<and> semantic_search env chunks question tr =
             (Inr (chunks ! k), tr @ [Encode (Sentences chunks), Encode (Sentence question), CosSim])
         \<and> qna_body env pdf_path question [] =
             answer_question env (chunks ! k) question
               (Open pdf_path # map GetText [0 ..< length texts] @
                 [Close, Encode (Sentences chunks), Encode (Sentence question), CosSim])"
proof -
  have "scores \<noteq> []" using assms(3,7) by auto
  from argmax_first_max [OF this] obtain k where k: "argmax scores = Inr k" "k < length scores"
    "\<forall>j<length scores. scores ! j \<le> scores ! k" "\<forall>j<k. scores ! j < scores ! k" by blast
  have s: "\<And>tr. semantic_search env chunks question tr =
      (Inr (chunks ! k), tr @ [Encode (Sentences chunks), Encode (Sentence question), CosSim])"
    using k(1,2) assms(7) by (simp add: semantic_search_scored [OF assms(4,5,6)] item_def)
  have "qna_body env pdf_path question [] =
             answer_question env (chunks ! k) question
               (Open pdf_path # map GetText [0 ..< length texts] @
                 [Close, Encode (Sentences chunks), Encode (Sentence question), CosSim])"
    using assms(3) unfolding assms(2) [symmetric] qna_body_def
    by (simp add: bind_def extract_text_readable [OF assms(1)] assms(2) [symmetric] s)
  with k s assms(7) show ?thesis by auto
qed

lemma answer_question_events:
  "snd (answer_question env best_context question tr) =
     tr @ [Generate (make_prompt best_context question) 100]"
  by (cases "qa_pipeline env (make_prompt best_context question) 100")
     (simp_all add: answer_question_failed answer_question_generated)

lemma document_qna_tool_events:
  "snd (document_qna_tool env pdf_path question) = snd (qna_body env pdf_path question [])"
  by (simp add: document_qna_tool_def split: prod.splits sum.splits)

text \<open>What \<open>strip\<close> gives neither starts nor ends with whitespace.\<close>

lemma rstrip_prefix: "\<exists>ws. s = rstrip s @ ws"
proof -
  have "rstrip s @ rev (takeWhile isspace (rev s)) =
      rev (takeWhile isspace (rev s) @ dropWhile isspace (rev s))"
    by (simp only: rstrip_def rev_append)
  also have "\<dots> = s" by (simp only: takeWhile_dropWhile_id rev_rev_ident)
  finally have "s = rstrip s @ rev (takeWhile isspace (rev s))" by simp
  then show ?thesis ..
qed

lemma strip_no_leading: 
  assumes "strip s \<noteq> []"
  shows "\<not> isspace (hd (strip s))"
proof -
  obtain ws where ws: "lstrip s = strip s @ ws"
    using rstrip_prefix [of "lstrip s"] by (auto simp: strip_def)
  then have "hd (lstrip s) = hd (strip s)" using assms by simp
  moreover have "lstrip s \<noteq> []" using ws assms by auto
  ultimately show ?thesis
    using hd_dropWhile [of isspace s] by (simp add: lstrip_def)
qed

lemma strip_no_trailing:
  assumes "strip s \<noteq> []"
  shows "\<not> isspace (last (strip s))"
proof -
  have ne: "dropWhile isspace (rev (lstrip s)) \<noteq> []"
    using assms by (simp add: strip_def rstrip_def)
  have "last (strip s) = hd (dropWhile isspace (rev (lstrip s)))"
    using ne by (simp add: strip_def rstrip_def last_rev)
  then show ?thesis using hd_dropWhile [OF ne] by simp
qed

text \<open>The strings the tool returns.\<close>

lemma answer_question_value:
  assumes "fst (answer_question env best_context question tr) = Inr s"
  shows "\<exists>answer. s = ustr ''Answer: '' @ answer"
proof (cases "qa_pipeline env (make_prompt best_context question) 100")
  case (Inl e)
  with assms show ?thesis by (simp add: answer_question_failed)
next
  case (Inr results)
  with assms show ?thesis
    by (auto simp: answer_question_generated split: sum.splits)
qed

lemma bind_value:
  "bind m f tr = (case m tr of (Inl e, tr') \<Rightarrow> (Inl e, tr') | (Inr a, tr') \<Rightarrow> f a tr')"
  by (simp add: bind_def)

lemma qna_body_value:
  assumes "fst (qna_body env pdf_path question tr) = Inr s"
  shows "s = ustr ''No text found in the PDF.'' \<or> (\<exists>answer. s = ustr ''Answer: '' @ answer)"
proof -
  obtain r1 tr1 where e: "extract_text env pdf_path tr = (r1, tr1)" by (cases "extract_text env pdf_path tr")
  show ?thesis
  proof (cases r1)
    case (Inl x)
    with assms e show ?thesis by (simp add: qna_body_def bind_def)
  next
    case (Inr text_chunks)
    show ?thesis
    proof (cases "text_chunks = []")
      case True
      with assms e Inr show ?thesis by (simp add: qna_body_def bind_def ret_def)
    next
      case False
      obtain r2 tr2 where ss: "semantic_search env text_chunks question tr1 = (r2, tr2)"
        by (cases "semantic_search env text_chunks question tr1")
      show ?thesis
      proof (cases r2)
        case (Inl x)
        with assms e Inr False ss show ?thesis by (simp add: qna_body_def bind_def)
      next
        case (Inr best_context)
        with assms e \<open>r1 = Inr text_chunks\<close> False ss
        have "fst (answer_question env best_context question tr2) = Inr s"
          by (simp add: qna_body_def bind_def)
        then show ?thesis using answer_question_value by blast
      qed
    qed
  qed
qed

lemma document_qna_tool_value:
  "fst (document_qna_tool env pdf_path question) =
     (case fst (qna_body env pdf_path question []) of
        Inr s \<Rightarrow> s
      | Inl e \<Rightarrow> ustr ''Error processing document QnA: '' @ str_of e)"
  by (cases "qna_body env pdf_path question []")
     (simp add: document_qna_tool_def split: sum.splits)

text \<open>The document is closed on every run that reads all of its pages.\<close>

lemma semantic_search_events:
  "\<exists>evs. snd (semantic_search env text_chunks question tr) = tr @ evs"
  by (auto simp: semantic_search_def bind_def call_def lift_def split: sum.splits)

lemma readable_document_is_closed:
  assumes "fitz_open env pdf_path = Inr (map Inr texts)"
  shows "Close \<in> set (snd (document_qna_tool env pdf_path question))"
proof -
  let ?chunks = "filter (\<lambda>t. strip t \<noteq> []) texts"
  let ?tr = "Open pdf_path # map GetText [0 ..< length texts] @ [Close]"
  show ?thesis
  proof (cases "?chunks = []")
    case True
    then show ?thesis
      by (simp add: document_qna_tool_events qna_body_def bind_def ret_def
          extract_text_readable [OF assms])
  next
    case False
    obtain evs where evs: "snd (semantic_search env ?chunks question ([] @ ?tr)) = ([] @ ?tr) @ evs"
      using semantic_search_events by blast
    obtain r where r: "semantic_search env ?chunks question ([] @ ?tr) = (r, ([] @ ?tr) @ evs)"
      using evs by (cases "semantic_search env ?chunks question ([] @ ?tr)") auto
    show ?thesis
    proof (cases r)
      case (Inl e)
      with False r show ?thesis
        by (simp add: document_qna_tool_events qna_body_def bind_def
            extract_text_readable [OF assms])
    next
      case (Inr best_context)
      with False r show ?thesis
        by (simp add: document_qna_tool_events qna_body_def bind_def
            extract_text_readable [OF assms] answer_question_events)
    qed
  qed
qed

text \<open>The empty query.\<close>

lemma strip_Nil: "strip [] = []"
  by (simp add: strip_def lstrip_def rstrip_def)

text \<open>
  The dictionary of an agent's tools has no integer key, so the subscript of
  \<open>process_input\<close> raises a \<open>KeyError\<close> on it; on a list the same subscript reaches the
  tool at index 4, or raises an \<open>IndexError\<close>.
\<close>

lemma foldl_update_int_key:
  "map_of (foldl (\<lambda>d (n, t). AList.update (StrKey n) t d) d ts) (IntKey i) = map_of d (IntKey i)"
  by (induction ts arbitrary: d) (auto simp: update_conv')

lemma tools_dict_int_key: "map_of (tools_dict ts) (IntKey i) = None"
  by (simp add: tools_dict_def foldl_update_int_key)

lemma str_nat_4: "str_nat 4 = ustr ''4''"
  by (simp add: str_nat.simps ustr_def)

lemma process_input_on_dict:
  assumes "strip query \<noteq> []"
  shows "process_input \<lparr>tools = PyDict (tools_dict ts), run = agent_run\<rparr>
           (Some query) (Some pdf_file)
         = ustr ''An error occurred during Document Q&A: '' @ ustr ''4''"
proof -
  have "query \<noteq> []" using assms strip_Nil by auto
  with assms show ?thesis
    by (simp add: tools_dict_int_key str_nat_4)
qed

lemma process_input_on_list:
  assumes "strip query \<noteq> []" and "tools a = PyList ts"
  shows "4 < length ts \<longrightarrow>
           process_input a (Some query) (Some pdf_file) =
             (case (ts ! 4) (name pdf_file) query of
                Inr response \<Rightarrow> response
              | Inl e \<Rightarrow>
                  if cls e = IndexError then
                    ustr ''Error: Document Q&A tool not found at the expected index (4). Check agent tool setup in app.py.''
                  else ustr ''An error occurred during Document Q&A: '' @ str_of e)"
    and "length ts \<le> 4 \<longrightarrow>
           process_input a (Some query) (Some pdf_file) =
             ustr ''Error: Document Q&A tool not found at the expected index (4). Check agent tool setup in app.py.''"
proof -
  have ne: "query \<noteq> []" using assms(1) strip_Nil by auto
  show "4 < length ts \<longrightarrow>
           process_input a (Some query) (Some pdf_file) =
             (case (ts ! 4) (name pdf_file) query of
                Inr response \<Rightarrow> response
              | Inl e \<Rightarrow>
                  if cls e = IndexError then
                    ustr ''Error: Document Q&A tool not found at the expected index (4). Check agent tool setup in app.py.''
                  else ustr ''An error occurred during Document Q&A: '' @ str_of e)"
    using ne assms by (simp add: item_def)
  show "length ts \<le> 4 \<longrightarrow>
           process_input a (Some query) (Some pdf_file) =
             ustr ''Error: Document Q&A tool not found at the expected index (4). Check agent tool setup in app.py.''"
    using ne assms by (simp add: item_def)
qed

lemma process_input_runs_agent:
  assumes "strip query \<noteq> []"
  shows "process_input a (Some query) None =
           (case run a query of
              Inr response \<Rightarrow> response
            | Inl e \<Rightarrow> ustr ''An error occurred while processing your request: '' @ str_of e)"
proof -
  have "query \<noteq> []" using assms strip_Nil by auto
  with assms show ?thesis by simp
qed

lemma strip_question: "strip (ustr ''Germany?'') \<noteq> []"
  by (simp add: strip_def lstrip_def rstrip_def isspace_def ustr_def)

section \<open>The claims\<close>

text \<open>
  C3. For a document that opens and whose pages all have a text that is empty once its
  whitespace is trimmed, the tool returns exactly \<open>No text found in the PDF.\<close>; the run
  opens the document, reads each page and closes the document, and calls neither the
  embedding service, nor the similarity, nor the generation service.
\<close>

theorem blank_document_no_text:
  assumes "fitz_open env pdf_path = Inr (map Inr texts)"
    and "\<forall>t\<in>set texts. strip t = []"
  shows "document_qna_tool env pdf_path question =
           (ustr ''No text found in the PDF.'',
            Open pdf_path # map GetText [0 ..< length texts] @ [Close])
         \<and> (\<forall>s. Encode s \<notin> set (snd (document_qna_tool env pdf_path question)))
         \<and> CosSim \<notin> set (snd (document_qna_tool env pdf_path question))
         \<and> (\<forall>prompt n. Generate prompt n \<notin> set (snd (document_qna_tool env pdf_path question)))"
proof -
  have "filter (\<lambda>t. strip t \<noteq> []) texts = []"
    using assms(2) by (simp add: filter_empty_conv)
  then have run: "document_qna_tool env pdf_path question =
           (ustr ''No text found in the PDF.'',
            Open pdf_path # map GetText [0 ..< length texts] @ [Close])"
    by (simp add: document_qna_tool_def qna_body_def bind_def ret_def
        extract_text_readable [OF assms(1)])
  show ?thesis unfolding run by auto
qed

theorem blank_document_no_text_witness:
  "fitz_open (stub (Inr (map Inr [[32, 10], []])) (Inr []) (Inr [])) (ustr ''blank.pdf'')
     = Inr (map Inr [[32, 10], []])
   \<and> strip [32, 10] = [] \<and> strip [] = []
   \<and> document_qna_tool (stub (Inr (map Inr [[32, 10], []])) (Inr []) (Inr []))
        (ustr ''blank.pdf'') (ustr ''Why?'') =
        (ustr ''No text found in the PDF.'', [Open (ustr ''blank.pdf''), GetText 0, GetText 1, Close])"
proof -
  have h1: "fitz_open (stub (Inr (map Inr [[32, 10], []])) (Inr []) (Inr [])) (ustr ''blank.pdf'')
     = Inr (map Inr [[32, 10], []])"
    by (simp add: stub_def)
  have h2: "\<forall>t\<in>set [[32, 10], []]. strip t = []"
    by (simp add: strip_def lstrip_def rstrip_def isspace_def)
  have h3: "strip [32, 10] = [] \<and> strip [] = []"
    using h2 by simp
  show ?thesis
    using h1 h3 blank_document_no_text [OF h1 h2, of "ustr ''Why?''"] by (simp add: upt_rec)
qed

text \<open>
  C1. For a document that is read and has at least one chunk, with the chunks and the
  question embedded and one score computed per chunk, the chunk the search selects has
  the maximal score, and it is the context of the prompt sent to the generation; when the
  document has a single chunk, the selected chunk is that one, whatever the question.
\<close>

theorem context_has_max_similarity:
  assumes "fitz_open env pdf_path = Inr (map Inr texts)"
    and "chunks = filter (\<lambda>t. strip t \<noteq> []) texts"
    and "chunks \<noteq> []"
    and "encode env (Sentences chunks) = Inr embeddings"
    and "encode env (Sentence question) = Inr question_embedding"
    and "cos_sim env question_embedding embeddings = Inr scores"
    and "length scores = length chunks"
  shows "\<exists>k<length chunks.
           (\<forall>j<length chunks. scores ! j \<le> scores ! k)
         \<and> fst (semantic_search env chunks question tr) = Inr (chunks ! k)
         \<and> Generate (ustr ''Context: '' @ chunks ! k @ [10] @ ustr ''Question: '' @ question) 100
             \<in> set (snd (document_qna_tool env pdf_path question))
         \<and> (length chunks = 1 \<longrightarrow> chunks ! k = hd chunks)"
proof -
  from run_selects_first_max [OF assms, of tr] obtain k where k: "k < length chunks"
    "\<forall>j<length chunks. scores ! j \<le> scores ! k"
    "semantic_search env chunks question tr =
       (Inr (chunks ! k), tr @ [Encode (Sentences chunks), Encode (Sentence question), CosSim])"
    "qna_body env pdf_path question [] =
       answer_question env (chunks ! k) question
         (Open pdf_path # map GetText [0 ..< length texts] @
           [Close, Encode (Sentences chunks), Encode (Sentence question), CosSim])"
    by blast
  have g: "Generate (ustr ''Context: '' @ chunks ! k @ [10] @ ustr ''Question: '' @ question) 100
        \<in> set (snd (document_qna_tool env pdf_path question))"
    by (simp add: document_qna_tool_events k(4) answer_question_events make_prompt_def)
  have "length chunks = 1 \<longrightarrow> chunks ! k = hd chunks"
    using k(1) assms(3) by (auto simp: hd_conv_nth)
  with k g show ?thesis by auto
qed

theorem context_has_max_similarity_witness:
  "fitz_open (stub (Inr (map Inr [ustr ''Paris'', [32], ustr ''Berlin''])) (Inr [1, 5]) (Inr []))
      (ustr ''a.pdf'') = Inr (map Inr [ustr ''Paris'', [32], ustr ''Berlin''])
   \<and> [ustr ''Paris'', ustr ''Berlin''] = filter (\<lambda>t. strip t \<noteq> []) [ustr ''Paris'', [32], ustr ''Berlin'']
   \<and> fst (semantic_search (stub (Inr (map Inr [ustr ''Paris'', [32], ustr ''Berlin''])) (Inr [1, 5]) (Inr []))
        [ustr ''Paris'', ustr ''Berlin''] (ustr ''Germany?'') []) = Inr (ustr ''Berlin'')"
proof -
  let ?S = "stub (Inr (map Inr [ustr ''Paris'', [32], ustr ''Berlin''])) (Inr [1, 5]) (Inr [])"
  have h1: "fitz_open ?S (ustr ''a.pdf'') = Inr (map Inr [ustr ''Paris'', [32], ustr ''Berlin''])"
    by (simp add: stub_def)
  have h2: "[ustr ''Paris'', ustr ''Berlin''] = filter (\<lambda>t. strip t \<noteq> []) [ustr ''Paris'', [32], ustr ''Berlin'']"
    by (simp add: strip_def lstrip_def rstrip_def isspace_def ustr_def)
  have h3: "[ustr ''Paris'', ustr ''Berlin''] \<noteq> []" by simp
  have h4: "encode ?S (Sentences [ustr ''Paris'', ustr ''Berlin'']) = Inr 0" by (simp add: stub_def)
  have h5: "encode ?S (Sentence (ustr ''Germany?'')) = Inr 0" by (simp add: stub_def)
  have h6: "cos_sim ?S 0 0 = Inr [1, 5]" by (simp add: stub_def)
  have h7: "length [1, 5 :: int] = length [ustr ''Paris'', ustr ''Berlin'']" by simp
  from context_has_max_similarity [OF h1 h2 h3 h4 h5 h6 h7, of "[]"]
  obtain k where k: "k < length [ustr ''Paris'', ustr ''Berlin'']"
    "\<forall>j<length [ustr ''Paris'', ustr ''Berlin'']. [1, 5 :: int] ! j \<le> [1, 5] ! k"
    "fst (semantic_search ?S [ustr ''Paris'', ustr ''Berlin''] (ustr ''Germany?'') [])
       = Inr ([ustr ''Paris'', ustr ''Berlin''] ! k)"
    by blast
  have "k = 1"
  proof (rule ccontr)
    assume "k \<noteq> 1"
    with k(1) have "k = 0" by simp
    with k(2) show False by (auto simp: less_Suc_eq)
  qed
  with k(3) have "fst (semantic_search ?S [ustr ''Paris'', ustr ''Berlin''] (ustr ''Germany?'') [])
       = Inr (ustr ''Berlin'')" by simp
  with h1 h2 show ?thesis by blast
qed

text \<open>
  C2. Where several chunks have the maximal score, the search selects the first of them
  in page order: every chunk before the selected one has a strictly smaller score. A
  second run on the same document and question, whose embedding and similarity services
  give the same outputs, selects the same chunk.
\<close>

theorem ties_select_first_chunk:
  assumes "fitz_open env pdf_path = Inr (map Inr texts)"
    and "chunks = filter (\<lambda>t. strip t \<noteq> []) texts"
    and "chunks \<noteq> []"
    and "encode env (Sentences chunks) = Inr embeddings"
    and "encode env (Sentence question) = Inr question_embedding"
    and "cos_sim env question_embedding embeddings = Inr scores"
    and "length scores = length chunks"
    and "fitz_open env' pdf_path = Inr (map Inr texts)"
    and "encode env' (Sentences chunks) = Inr embeddings"
    and "encode env' (Sentence question) = Inr question_embedding"
    and "cos_sim env' question_embedding embeddings = Inr scores"
  shows "\<exists>k<length chunks.
           (\<forall>j<length chunks. scores ! j \<le> scores ! k)
         \<and> (\<forall>j<k. scores ! j < scores ! k)
         \<and> fst (semantic_search env chunks question tr) = Inr (chunks ! k)
         \<and> fst (semantic_search env' chunks question tr') = Inr (chunks ! k)
         \<and> Generate (ustr ''Context: '' @ chunks ! k @ [10] @ ustr ''Question: '' @ question) 100
             \<in> set (snd (document_qna_tool env pdf_path question))
         \<and> Generate (ustr ''Context: '' @ chunks ! k @ [10] @ ustr ''Question: '' @ question) 100
             \<in> set (snd (document_qna_tool env' pdf_path question))"
proof -
  from run_selects_first_max [OF assms(1-7), of tr] obtain k where k: "k < length chunks"
    "\<forall>j<length chunks. scores ! j \<le> scores ! k" "\<forall>j<k. scores ! j < scores ! k"
    "argmax scores = Inr k"
    "semantic_search env chunks question tr =
       (Inr (chunks ! k), tr @ [Encode (Sentences chunks), Encode (Sentence question), CosSim])"
    "qna_body env pdf_path question [] =
       answer_question env (chunks ! k) question
         (Open pdf_path # map GetText [0 ..< length texts] @
           [Close, Encode (Sentences chunks), Encode (Sentence question), CosSim])"
    by blast
  from run_selects_first_max [OF assms(8) assms(2,3) assms(9-11) assms(7), of tr']
  obtain k' where k': "argmax scores = Inr k'"
    "semantic_search env' chunks question tr' =
       (Inr (chunks ! k'), tr' @ [Encode (Sentences chunks), Encode (Sentence question), CosSim])"
    "qna_body env' pdf_path question [] =
       answer_question env' (chunks ! k') question
         (Open pdf_path # map GetText [0 ..< length texts] @
           [Close, Encode (Sentences chunks), Encode (Sentence question), CosSim])"
    by blast
  have same: "k' = k" using k(4) k'(1) by simp
  have g: "Generate (ustr ''Context: '' @ chunks ! k @ [10] @ ustr ''Question: '' @ question) 100
        \<in> set (snd (document_qna_tool env pdf_path question))"
    by (simp add: document_qna_tool_events k(6) answer_question_events make_prompt_def)
  have g': "Generate (ustr ''Context: '' @ chunks ! k @ [10] @ ustr ''Question: '' @ question) 100
        \<in> set (snd (document_qna_tool env' pdf_path question))"
    using same by (simp add: document_qna_tool_events k'(3) answer_question_events make_prompt_def)
  have s: "fst (semantic_search env chunks question tr) = Inr (chunks ! k)" using k(5) by simp
  have s': "fst (semantic_search env' chunks question tr') = Inr (chunks ! k)"
    using k'(2) same by simp
  from k(1,2,3) s s' g g' show ?thesis by blast
qed

theorem ties_select_first_chunk_witness:
  "[ustr ''one'', ustr ''two'', ustr ''three''] =
      filter (\<lambda>t. strip t \<noteq> []) [ustr ''one'', ustr ''two'', [], ustr ''three'']
   \<and> cos_sim (stub (Inr (map Inr [ustr ''one'', ustr ''two'', [], ustr ''three''])) (Inr [3, 7, 7]) (Inr [])) 0 0
        = Inr [3, 7, 7]
   \<and> fst (semantic_search
        (stub (Inr (map Inr [ustr ''one'', ustr ''two'', [], ustr ''three''])) (Inr [3, 7, 7]) (Inr []))
        [ustr ''one'', ustr ''two'', ustr ''three''] (ustr ''which?'') []) = Inr (ustr ''two'')
   \<and> fst (semantic_search
        (stub (Inr (map Inr [ustr ''one'', ustr ''two'', [], ustr ''three''])) (Inr [3, 7, 7])
           (Inl (Exc OtherException (ustr ''busy''))))
        [ustr ''one'', ustr ''two'', ustr ''three''] (ustr ''which?'') []) = Inr (ustr ''two'')"
proof -
  let ?T = "[ustr ''one'', ustr ''two'', [], ustr ''three'']"
  let ?C = "[ustr ''one'', ustr ''two'', ustr ''three'']"
  let ?S = "stub (Inr (map Inr ?T)) (Inr [3, 7, 7]) (Inr [])"
  let ?S' = "stub (Inr (map Inr ?T)) (Inr [3, 7, 7]) (Inl (Exc OtherException (ustr ''busy'')))"
  have h1: "fitz_open ?S (ustr ''a.pdf'') = Inr (map Inr ?T)" by (simp add: stub_def)
  have h2: "?C = filter (\<lambda>t. strip t \<noteq> []) ?T"
    by (simp add: strip_def lstrip_def rstrip_def isspace_def ustr_def)
  have h3: "?C \<noteq> []" by simp
  have h4: "encode ?S (Sentences ?C) = Inr 0" by (simp add: stub_def)
  have h5: "encode ?S (Sentence (ustr ''which?'')) = Inr 0" by (simp add: stub_def)
  have h6: "cos_sim ?S 0 0 = Inr [3, 7, 7]" by (simp add: stub_def)
  have h7: "length [3, 7, 7 :: int] = length ?C" by simp
  have h8: "fitz_open ?S' (ustr ''a.pdf'') = Inr (map Inr ?T)" by (simp add: stub_def)
  have h9: "encode ?S' (Sentences ?C) = Inr 0" by (simp add: stub_def)
  have h10: "encode ?S' (Sentence (ustr ''which?'')) = Inr 0" by (simp add: stub_def)
  have h11: "cos_sim ?S' 0 0 = Inr [3, 7, 7]" by (simp add: stub_def)
  from ties_select_first_chunk [OF h1 h2 h3 h4 h5 h6 h7 h8 h9 h10 h11, of "[]" "[]"]
  obtain k where k: "k < length ?C"
    "\<forall>j<length ?C. [3, 7, 7 :: int] ! j \<le> [3, 7, 7] ! k"
    "\<forall>j<k. [3, 7, 7 :: int] ! j < [3, 7, 7] ! k"
    "fst (semantic_search ?S ?C (ustr ''which?'') []) = Inr (?C ! k)"
    "fst (semantic_search ?S' ?C (ustr ''which?'') []) = Inr (?C ! k)"
    by blast
  have "k = 1"
  proof -
    from k(1) have "k = 0 \<or> k = 1 \<or> k = 2" by (auto simp: less_Suc_eq)
    moreover have "k \<noteq> 0" using k(2) [rule_format, of 1] by (cases k) auto
    moreover have "k \<noteq> 2" using k(3) [rule_format, of 1] by auto
    ultimately show ?thesis by blast
  qed
  with k(4,5) have "fst (semantic_search ?S ?C (ustr ''which?'') []) = Inr (ustr ''two'')"
    "fst (semantic_search ?S' ?C (ustr ''which?'') []) = Inr (ustr ''two'')" by simp_all
  with h2 h6 show ?thesis by blast
qed

text \<open>
  C6. For a document whose pages are all read, the chunks of step 1 are the texts of the
  pages that are not empty once trimmed, in page order and untrimmed. That list is the
  one embedded and the one the index given by \<open>argmax\<close> over the scores selects from:
  with one score per chunk, the index is within the list and its chunk is the context of
  the prompt.
\<close>

theorem chunks_are_nonblank_pages:
  assumes "fitz_open env pdf_path = Inr (map Inr texts)"
    and "chunks = filter (\<lambda>t. strip t \<noteq> []) texts"
  shows "fst (extract_text env pdf_path tr) = Inr chunks
       \<and> (encode env (Sentences chunks) = Inr embeddings
            \<and> encode env (Sentence question) = Inr question_embedding
            \<and> cos_sim env question_embedding embeddings = Inr scores
            \<and> length scores = length chunks
            \<and> argmax scores = Inr k
          \<longrightarrow> k < length chunks
            \<and> snd (document_qna_tool env pdf_path question) =
                Open pdf_path # map GetText [0 ..< length texts] @
                  [Close, Encode (Sentences chunks), Encode (Sentence question), CosSim,
                   Generate (ustr ''Context: '' @ chunks ! k @ [10] @ ustr ''Question: '' @ question) 100])"
proof (intro conjI impI)
  show "fst (extract_text env pdf_path tr) = Inr chunks"
    by (simp add: extract_text_readable [OF assms(1)] assms(2))
next
  assume h: "encode env (Sentences chunks) = Inr embeddings
            \<and> encode env (Sentence question) = Inr question_embedding
            \<and> cos_sim env question_embedding embeddings = Inr scores
            \<and> length scores = length chunks
            \<and> argmax scores = Inr k"
  then have "scores \<noteq> []" by (auto simp: argmax_def)
  with h have ne: "chunks \<noteq> []" by auto
  from h run_selects_first_max [OF assms(1,2) ne, of embeddings question question_embedding scores "[]"]
  obtain k' where k': "k' < length chunks" "argmax scores = Inr k'"
    "qna_body env pdf_path question [] =
       answer_question env (chunks ! k') question
         (Open pdf_path # map GetText [0 ..< length texts] @
           [Close, Encode (Sentences chunks), Encode (Sentence question), CosSim])"
    by blast
  have same: "k' = k" using h k'(2) by simp
  show "k < length chunks" using k'(1) same by simp
  show "snd (document_qna_tool env pdf_path question) =
                Open pdf_path # map GetText [0 ..< length texts] @
                  [Close, Encode (Sentences chunks), Encode (Sentence question), CosSim,
                   Generate (ustr ''Context: '' @ chunks ! k @ [10] @ ustr ''Question: '' @ question) 100]"
    using same by (simp add: document_qna_tool_events k'(3) answer_question_events make_prompt_def)
qed

theorem chunks_are_nonblank_pages_witness:
  "[32, 97] # [[98, 32]] = filter (\<lambda>t. strip t \<noteq> []) [[32, 97], [32], [98, 32]]
   \<and> fst (extract_text (stub (Inr (map Inr [[32, 97], [32], [98, 32]])) (Inr [2, 9]) (Inr []))
        (ustr ''a.pdf'') []) = Inr [[32, 97], [98, 32]]
   \<and> argmax [2, 9 :: int] = Inr 1
   \<and> snd (document_qna_tool (stub (Inr (map Inr [[32, 97], [32], [98, 32]])) (Inr [2, 9]) (Inr []))
        (ustr ''a.pdf'') (ustr ''b?'')) =
       [Open (ustr ''a.pdf''), GetText 0, GetText 1, GetText 2, Close,
        Encode (Sentences [[32, 97], [98, 32]]), Encode (Sentence (ustr ''b?'')), CosSim,
        Generate (ustr ''Context: '' @ [98, 32] @ [10] @ ustr ''Question: '' @ ustr ''b?'') 100]"
proof -
  let ?T = "[[32, 97], [32], [98, 32 :: nat]]"
  let ?C = "[[32, 97], [98, 32 :: nat]]"
  let ?S = "stub (Inr (map Inr ?T)) (Inr [2, 9]) (Inr [])"
  have h1: "fitz_open ?S (ustr ''a.pdf'') = Inr (map Inr ?T)" by (simp add: stub_def)
  have h2: "?C = filter (\<lambda>t. strip t \<noteq> []) ?T"
    by (simp add: strip_def lstrip_def rstrip_def isspace_def)
  have h3: "encode ?S (Sentences ?C) = Inr 0 \<and> encode ?S (Sentence (ustr ''b?'')) = Inr 0
     \<and> cos_sim ?S 0 0 = Inr [2, 9] \<and> length [2, 9 :: int] = length ?C \<and> argmax [2, 9 :: int] = Inr 1"
    by (simp add: stub_def argmax_def)
  from chunks_are_nonblank_pages [OF h1 h2, of "[]" 0 "ustr ''b?''" 0 "[2, 9]" 1] h3
  have e: "fst (extract_text ?S (ustr ''a.pdf'') []) = Inr ?C"
    and t: "snd (document_qna_tool ?S (ustr ''a.pdf'') (ustr ''b?'')) =
       Open (ustr ''a.pdf'') # map GetText [0 ..< length ?T] @
        [Close, Encode (Sentences ?C), Encode (Sentence (ustr ''b?'')), CosSim,
         Generate (ustr ''Context: '' @ ?C ! 1 @ [10] @ ustr ''Question: '' @ ustr ''b?'') 100]"
    by blast+
  have t': "snd (document_qna_tool ?S (ustr ''a.pdf'') (ustr ''b?'')) =
       [Open (ustr ''a.pdf''), GetText 0, GetText 1, GetText 2, Close,
        Encode (Sentences ?C), Encode (Sentence (ustr ''b?'')), CosSim,
        Generate (ustr ''Context: '' @ [98, 32] @ [10] @ ustr ''Question: '' @ ustr ''b?'') 100]"
    unfolding t by (simp add: upt_rec)
  have a: "argmax [2, 9 :: int] = Inr 1" using h3 by blast
  from h2 e a t' show ?thesis by blast
qed

text \<open>
  C5. When the run reaches the generation and the generation gives at least one result
  with a \<open>generated_text\<close>, the prompt is \<open>Context: \<close>, the selected chunk, a newline,
  \<open>Question: \<close> and the question; the generation is called once, with that prompt and
  100 new tokens at most; the tool returns \<open>Answer: \<close> followed by the trimmed text of
  the first result, which neither starts nor ends with whitespace.
\<close>

theorem answer_is_trimmed_and_prefixed:
  assumes "fitz_open env pdf_path = Inr (map Inr texts)"
    and "chunks = filter (\<lambda>t. strip t \<noteq> []) texts"
    and "chunks \<noteq> []"
    and "encode env (Sentences chunks) = Inr embeddings"
    and "encode env (Sentence question) = Inr question_embedding"
    and "cos_sim env question_embedding embeddings = Inr scores"
    and "length scores = length chunks"
    and "argmax scores = Inr k"
    and "qa_pipeline env (ustr ''Context: '' @ chunks ! k @ [10] @ ustr ''Question: '' @ question) 100
           = Inr (result # others)"
    and "map_of result (ustr ''generated_text'') = Some answer"
  shows "fst (document_qna_tool env pdf_path question) = ustr ''Answer: '' @ strip answer
       \<and> last (snd (document_qna_tool env pdf_path question)) =
           Generate (ustr ''Context: '' @ chunks ! k @ [10] @ ustr ''Question: '' @ question) 100
       \<and> length (filter (\<lambda>ev. case ev of Generate _ _ \<Rightarrow> True | _ \<Rightarrow> False)
            (snd (document_qna_tool env pdf_path question))) = 1
       \<and> (strip answer \<noteq> [] \<longrightarrow>
            \<not> isspace (hd (strip answer)) \<and> \<not> isspace (last (strip answer)))"
proof -
  from run_selects_first_max [OF assms(1-7), of "[]"]
  obtain k' where k': "k' < length chunks" "argmax scores = Inr k'"
    "qna_body env pdf_path question [] =
       answer_question env (chunks ! k') question
         (Open pdf_path # map GetText [0 ..< length texts] @
           [Close, Encode (Sentences chunks), Encode (Sentence question), CosSim])"
    by blast
  have same: "k' = k" using assms(8) k'(2) by simp
  have q: "qa_pipeline env (make_prompt (chunks ! k) question) 100 = Inr (result # others)"
    using assms(9) by (simp add: make_prompt_def)
  have body: "qna_body env pdf_path question [] =
      (Inr (ustr ''Answer: '' @ strip answer),
       (Open pdf_path # map GetText [0 ..< length texts] @
           [Close, Encode (Sentences chunks), Encode (Sentence question), CosSim]) @
       [Generate (make_prompt (chunks ! k) question) 100])"
    using same assms(10)
    by (simp add: k'(3) answer_question_generated [OF q] item_def getitem_def)
  have out: "document_qna_tool env pdf_path question =
      (ustr ''Answer: '' @ strip answer,
       Open pdf_path # map GetText [0 ..< length texts] @
           [Close, Encode (Sentences chunks), Encode (Sentence question), CosSim,
            Generate (ustr ''Context: '' @ chunks ! k @ [10] @ ustr ''Question: '' @ question) 100])"
    by (simp add: document_qna_tool_def body make_prompt_def)
  have nogen: "filter (\<lambda>ev. case ev of Generate _ _ \<Rightarrow> True | _ \<Rightarrow> False)
      (map GetText [0 ..< length texts]) = []"
    by (simp add: filter_empty_conv)
  have one: "length (filter (\<lambda>ev. case ev of Generate _ _ \<Rightarrow> True | _ \<Rightarrow> False)
            (snd (document_qna_tool env pdf_path question))) = 1"
    unfolding out by (simp add: nogen)
  show ?thesis
    using one strip_no_leading [of answer] strip_no_trailing [of answer]
    by (simp add: out)
qed

theorem answer_is_trimmed_and_prefixed_witness:
  "argmax [1, 5 :: int] = Inr 1
   \<and> qa_pipeline (stub (Inr (map Inr [ustr ''Paris'', ustr ''Berlin''])) (Inr [1, 5])
          (Inr [[(ustr ''generated_text'', ustr '' Berlin '')]]))
        (ustr ''Context: '' @ [ustr ''Paris'', ustr ''Berlin''] ! 1 @ [10] @ ustr ''Question: '' @ ustr ''Germany?'') 100
        = Inr ([(ustr ''generated_text'', ustr '' Berlin '')] # [])
   \<and> map_of [(ustr ''generated_text'', ustr '' Berlin '')] (ustr ''generated_text'')
        = Some (ustr '' Berlin '')
   \<and> fst (document_qna_tool (stub (Inr (map Inr [ustr ''Paris'', ustr ''Berlin''])) (Inr [1, 5])
          (Inr [[(ustr ''generated_text'', ustr '' Berlin '')]]))
        (ustr ''a.pdf'') (ustr ''Germany?'')) = ustr ''Answer: Berlin''"
proof -
  let ?C = "[ustr ''Paris'', ustr ''Berlin'']"
  let ?S = "stub (Inr (map Inr ?C)) (Inr [1, 5]) (Inr [[(ustr ''generated_text'', ustr '' Berlin '')]])"
  have h1: "fitz_open ?S (ustr ''a.pdf'') = Inr (map Inr ?C)" by (simp add: stub_def)
  have h2: "?C = filter (\<lambda>t. strip t \<noteq> []) ?C"
    by (simp add: strip_def lstrip_def rstrip_def isspace_def ustr_def)
  have h3: "?C \<noteq> []" by simp
  have h4: "encode ?S (Sentences ?C) = Inr 0" by (simp add: stub_def)
  have h5: "encode ?S (Sentence (ustr ''Germany?'')) = Inr 0" by (simp add: stub_def)
  have h6: "cos_sim ?S 0 0 = Inr [1, 5]" by (simp add: stub_def)
  have h7: "length [1, 5 :: int] = length ?C" by simp
  have h8: "argmax [1, 5 :: int] = Inr 1" by (simp add: argmax_def)
  have h9: "qa_pipeline ?S
        (ustr ''Context: '' @ ?C ! 1 @ [10] @ ustr ''Question: '' @ ustr ''Germany?'') 100
        = Inr ([(ustr ''generated_text'', ustr '' Berlin '')] # [])"
    by (simp add: stub_def)
  have h10: "map_of [(ustr ''generated_text'', ustr '' Berlin '')] (ustr ''generated_text'')
        = Some (ustr '' Berlin '')"
    by simp
  have s: "ustr ''Answer: '' @ strip (ustr '' Berlin '') = ustr ''Answer: Berlin''"
    by (simp add: strip_def lstrip_def rstrip_def isspace_def ustr_def)
  from answer_is_trimmed_and_prefixed [OF h1 h2 h3 h4 h5 h6 h7 h8 h9 h10]
  have "fst (document_qna_tool ?S (ustr ''a.pdf'') (ustr ''Germany?''))
      = ustr ''Answer: '' @ strip (ustr '' Berlin '')"
    by blast
  then have "fst (document_qna_tool ?S (ustr ''a.pdf'') (ustr ''Germany?'')) = ustr ''Answer: Berlin''"
    by (simp only: s)
  with h8 h9 h10 show ?thesis by blast
qed

text \<open>
  C4. Whichever call raises, \<open>fitz.open\<close>, \<open>get_text\<close> on a page, \<open>encode\<close> on the chunks
  or on the question, the similarity, \<open>argmax\<close>, the indexing of the chunks, the
  generation or the reading of its first result, with the calls before it giving their
  values, the tool returns \<open>Error processing document QnA: \<close> followed by the text of the
  exception. Every run of the tool returns a string of one of three forms: the message
  of the document without text, an answer, or an error message.
\<close>

theorem faults_become_error_strings:
  fixes env :: "('v, 's::linorder) services"
  assumes
   "fitz_open env pdf_path = Inl e
    \<or> fitz_open env pdf_path = Inr (map Inr texts @ Inl e # rest)
    \<or> (fitz_open env pdf_path = Inr (map Inr texts)
        \<and> chunks = filter (\<lambda>t. strip t \<noteq> []) texts \<and> chunks \<noteq> []
        \<and> (encode env (Sentences chunks) = Inl e
           \<or> (encode env (Sentences chunks) = Inr embeddings
              \<and> (encode env (Sentence question) = Inl e
                 \<or> (encode env (Sentence question) = Inr question_embedding
                    \<and> (cos_sim env question_embedding embeddings = Inl e
                       \<or> (cos_sim env question_embedding embeddings = Inr scores
                          \<and> (argmax scores = Inl e
                             \<or> (argmax scores = Inr k
                                \<and> (item chunks k = Inl e
                                   \<or> (item chunks k = Inr best_context
                                      \<and> (qa_pipeline env (make_prompt best_context question) 100 = Inl e
                                         \<or> (qa_pipeline env (make_prompt best_context question) 100 = Inr results
                                            \<and> (item results 0 = Inl e
                                               \<or> (item results 0 = Inr result
                                                  \<and> getitem result (ustr ''generated_text'') = Inl e)))))))))))))))"
  shows "fst (document_qna_tool env pdf_path question) =
           ustr ''Error processing document QnA: '' @ str_of e
       \<and> (\<forall>(env' :: ('v, 's) services) pdf_path' question'.
            fst (document_qna_tool env' pdf_path' question') = ustr ''No text found in the PDF.''
            \<or> (\<exists>answer. fst (document_qna_tool env' pdf_path' question') = ustr ''Answer: '' @ answer)
            \<or> (\<exists>e'. fst (document_qna_tool env' pdf_path' question') =
                  ustr ''Error processing document QnA: '' @ str_of e'))"
proof -
  have body: "fst (qna_body env pdf_path question []) = Inl e"
    using assms
    apply (elim disjE conjE)
              apply (simp_all add: qna_body_def bind_value extract_text_not_opened
        extract_text_unreadable extract_text_readable semantic_search_def call_def lift_def
        answer_question_failed answer_question_generated)
    done
  have err: "fst (document_qna_tool env pdf_path question) =
           ustr ''Error processing document QnA: '' @ str_of e"
    using body by (simp add: document_qna_tool_value)
  have forms: "fst (document_qna_tool env' pdf_path' question') = ustr ''No text found in the PDF.''
            \<or> (\<exists>answer. fst (document_qna_tool env' pdf_path' question') = ustr ''Answer: '' @ answer)
            \<or> (\<exists>e'. fst (document_qna_tool env' pdf_path' question') =
                  ustr ''Error processing document QnA: '' @ str_of e')"
    for env' :: "('v, 's) services" and pdf_path' question'
  proof (cases "fst (qna_body env' pdf_path' question' [])")
    case (Inl e')
    then have "fst (document_qna_tool env' pdf_path' question') =
        ustr ''Error processing document QnA: '' @ str_of e'"
      by (simp add: document_qna_tool_value)
    then show ?thesis by blast
  next
    case (Inr s)
    then have "fst (document_qna_tool env' pdf_path' question') = s"
      by (simp add: document_qna_tool_value)
    with qna_body_value [OF Inr] show ?thesis by auto
  qed
  show ?thesis by (intro conjI allI) (rule err, rule forms)
qed

theorem faults_become_error_strings_witness:
  "qa_pipeline (stub (Inr (map Inr [ustr ''Paris'', ustr ''Berlin''])) (Inr [1, 5])
        (Inl (Exc OtherException (ustr ''model offline''))))
      (make_prompt (ustr ''Berlin'') (ustr ''Germany?'')) 100
     = Inl (Exc OtherException (ustr ''model offline''))
   \<and> fst (document_qna_tool (stub (Inr (map Inr [ustr ''Paris'', ustr ''Berlin''])) (Inr [1, 5])
        (Inl (Exc OtherException (ustr ''model offline''))))
      (ustr ''a.pdf'') (ustr ''Germany?'')) = ustr ''Error processing document QnA: model offline''
   \<and> fitz_open (stub (Inl (Exc OtherException (ustr ''no such file''))) (Inr []) (Inr []))
        (ustr ''b.pdf'') = Inl (Exc OtherException (ustr ''no such file''))
   \<and> fst (document_qna_tool (stub (Inl (Exc OtherException (ustr ''no such file''))) (Inr []) (Inr []))
      (ustr ''b.pdf'') (ustr ''Germany?'')) = ustr ''Error processing document QnA: no such file''"
proof -
  let ?C = "[ustr ''Paris'', ustr ''Berlin'']"
  let ?e = "Exc OtherException (ustr ''model offline'')"
  let ?S = "stub (Inr (map Inr ?C)) (Inr [1, 5]) (Inl ?e)"
  let ?e' = "Exc OtherException (ustr ''no such file'')"
  let ?S' = "stub (Inl ?e') (Inr []) (Inr [])"
  have c: "?C = filter (\<lambda>t. strip t \<noteq> []) ?C"
    by (simp add: strip_def lstrip_def rstrip_def isspace_def ustr_def)
  have g: "qa_pipeline ?S (make_prompt (ustr ''Berlin'') (ustr ''Germany?'')) 100 = Inl ?e"
    by (simp add: stub_def)
  have hyp: "fitz_open ?S (ustr ''a.pdf'') = Inr (map Inr ?C)
        \<and> ?C = filter (\<lambda>t. strip t \<noteq> []) ?C \<and> ?C \<noteq> []
        \<and> encode ?S (Sentences ?C) = Inr 0
        \<and> encode ?S (Sentence (ustr ''Germany?'')) = Inr 0
        \<and> cos_sim ?S 0 0 = Inr [1, 5]
        \<and> argmax [1, 5 :: int] = Inr 1
        \<and> item ?C 1 = Inr (ustr ''Berlin'')
        \<and> qa_pipeline ?S (make_prompt (ustr ''Berlin'') (ustr ''Germany?'')) 100 = Inl ?e"
  proof -
    have "fitz_open ?S (ustr ''a.pdf'') = Inr (map Inr ?C)" by (simp add: stub_def)
    moreover have "?C \<noteq> []" by simp
    moreover have "encode ?S (Sentences ?C) = Inr 0" by (simp add: stub_def)
    moreover have "encode ?S (Sentence (ustr ''Germany?'')) = Inr 0" by (simp add: stub_def)
    moreover have "cos_sim ?S 0 0 = Inr [1, 5]" by (simp add: stub_def)
    moreover have "argmax [1, 5 :: int] = Inr 1" by (simp add: argmax_def)
    moreover have "item ?C 1 = Inr (ustr ''Berlin'')" by (simp add: item_def)
    ultimately show ?thesis using c g by blast
  qed
  have o: "fitz_open ?S' (ustr ''b.pdf'') = Inl ?e'" by (simp add: stub_def)
  have m: "ustr ''Error processing document QnA: '' @ str_of ?e
        = ustr ''Error processing document QnA: model offline''"
    "ustr ''Error processing document QnA: '' @ str_of ?e'
        = ustr ''Error processing document QnA: no such file''"
    by (simp_all add: ustr_def)
  have "fst (document_qna_tool ?S (ustr ''a.pdf'') (ustr ''Germany?'')) =
      ustr ''Error processing document QnA: '' @ str_of ?e"
    using hyp faults_become_error_strings [where env = ?S and pdf_path = "ustr ''a.pdf''"
        and question = "ustr ''Germany?''" and e = ?e and texts = ?C and chunks = ?C
        and embeddings = 0 and question_embedding = 0 and scores = "[1, 5]" and k = 1
        and best_context = "ustr ''Berlin''" and rest = "[]" and results = "[]" and result = "[]"]
    by blast
  then have r: "fst (document_qna_tool ?S (ustr ''a.pdf'') (ustr ''Germany?'')) =
      ustr ''Error processing document QnA: model offline''"
    by (simp only: m)
  have "fst (document_qna_tool ?S' (ustr ''b.pdf'') (ustr ''Germany?'')) =
      ustr ''Error processing document QnA: '' @ str_of ?e'"
    using o faults_become_error_strings [where env = ?S' and pdf_path = "ustr ''b.pdf''"
        and question = "ustr ''Germany?''" and e = ?e' and texts = "[]" and chunks = "[]"
        and embeddings = 0 and question_embedding = 0 and scores = "[]" and k = 0
        and best_context = "[]" and rest = "[]" and results = "[]" and result = "[]"]
    by blast
  then have r': "fst (document_qna_tool ?S' (ustr ''b.pdf'') (ustr ''Germany?'')) =
      ustr ''Error processing document QnA: no such file''"
    by (simp only: m)
  from g r o r' show ?thesis by blast
qed

text \<open>
  C7. A run on a document that opens and whose second page raises in \<open>get_text\<close>: the
  tool returns the error message, and the events of the run are the opening and the two
  readings; the document is not closed.
\<close>

theorem unreadable_page_leaves_document_open:
  "document_qna_tool
     (stub (Inr [Inr (ustr ''page one''), Inl (Exc OtherException (ustr ''cannot read page''))])
        (Inr []) (Inr []))
     (ustr ''a.pdf'') (ustr ''Why?'') =
   (ustr ''Error processing document QnA: cannot read page'',
    [Open (ustr ''a.pdf''), GetText 0, GetText 1])"
proof -
  let ?e = "Exc OtherException (ustr ''cannot read page'')"
  let ?S = "stub (Inr [Inr (ustr ''page one''), Inl ?e]) (Inr []) (Inr [])"
  have "fitz_open ?S (ustr ''a.pdf'') = Inr (map Inr [ustr ''page one''] @ Inl ?e # [])"
    by (simp add: stub_def)
  from extract_text_unreadable [OF this, of "[]"]
  have "qna_body ?S (ustr ''a.pdf'') (ustr ''Why?'') [] =
      (Inl ?e, [Open (ustr ''a.pdf''), GetText 0, GetText 1])"
    by (simp add: qna_body_def bind_def upt_rec)
  then show ?thesis
    by (simp add: document_qna_tool_def ustr_def)
qed

text \<open>
  C8. A run of \<open>process_input\<close> with the agent of \<open>app.py\<close>, an uploaded file and a
  question: the Document Q&A tool would answer that file and question, and
  \<open>process_input\<close> does not reach it; the subscript raises and the response is the
  message of a failed Document Q&A with the text of the \<open>KeyError\<close>.
\<close>

theorem upload_is_not_dispatched:
  "fst (document_qna_tool
        (stub (Inr (map Inr [ustr ''Paris'', ustr ''Berlin''])) (Inr [1, 5])
           (Inr [[(ustr ''generated_text'', ustr '' Berlin '')]]))
        (ustr ''a.pdf'') (ustr ''Germany?'')) = ustr ''Answer: Berlin''
   \<and> process_input
        (agent (stub (Inr (map Inr [ustr ''Paris'', ustr ''Berlin''])) (Inr [1, 5])
                  (Inr [[(ustr ''generated_text'', ustr '' Berlin '')]]))
           (\<lambda>_ _. Inr []) (\<lambda>_ _. Inr []) (ustr ''image_generator'', \<lambda>_ _. Inr [])
           (ustr ''web_search'', \<lambda>_ _. Inr []) (ustr ''final_answer'', \<lambda>_ _. Inr [])
           (\<lambda>q. Inr q))
        (Some (ustr ''Germany?'')) (Some \<lparr>name = ustr ''a.pdf''\<rparr>)
      = ustr ''An error occurred during Document Q&A: 4''"
proof -
  let ?C = "[ustr ''Paris'', ustr ''Berlin'']"
  let ?S = "stub (Inr (map Inr ?C)) (Inr [1, 5]) (Inr [[(ustr ''generated_text'', ustr '' Berlin '')]])"
  have h1: "fitz_open ?S (ustr ''a.pdf'') = Inr (map Inr ?C)" by (simp add: stub_def)
  have h2: "?C = filter (\<lambda>t. strip t \<noteq> []) ?C"
    by (simp add: strip_def lstrip_def rstrip_def isspace_def ustr_def)
  have h3: "?C \<noteq> []" by simp
  have h4: "encode ?S (Sentences ?C) = Inr 0" by (simp add: stub_def)
  have h5: "encode ?S (Sentence (ustr ''Germany?'')) = Inr 0" by (simp add: stub_def)
  have h6: "cos_sim ?S 0 0 = Inr [1, 5]" by (simp add: stub_def)
  have h7: "length [1, 5 :: int] = length ?C" by simp
  from run_selects_first_max [OF h1 h2 h3 h4 h5 h6 h7, of "[]"]
  obtain k where k: "argmax [1, 5 :: int] = Inr k"
    "qna_body ?S (ustr ''a.pdf'') (ustr ''Germany?'') [] =
       answer_question ?S (?C ! k) (ustr ''Germany?'')
         (Open (ustr ''a.pdf'') # map GetText [0 ..< length ?C] @
           [Close, Encode (Sentences ?C), Encode (Sentence (ustr ''Germany?'')), CosSim])"
    by blast
  have q: "qa_pipeline ?S (make_prompt (?C ! k) (ustr ''Germany?'')) 100
      = Inr [[(ustr ''generated_text'', ustr '' Berlin '')]]"
    by (simp add: stub_def)
  have g: "fst (answer_question ?S (?C ! k) (ustr ''Germany?'') tr) =
      Inr (ustr ''Answer: '' @ strip (ustr '' Berlin ''))" for tr
    by (subst answer_question_generated [OF q]) (simp add: item_def getitem_def)
  have "fst (qna_body ?S (ustr ''a.pdf'') (ustr ''Germany?'') []) =
      Inr (ustr ''Answer: '' @ strip (ustr '' Berlin ''))"
    by (simp only: k(2) g)
  then have "fst (document_qna_tool ?S (ustr ''a.pdf'') (ustr ''Germany?'')) =
      ustr ''Answer: '' @ strip (ustr '' Berlin '')"
    by (simp add: document_qna_tool_value)
  moreover have "ustr ''Answer: '' @ strip (ustr '' Berlin '') = ustr ''Answer: Berlin''"
    by (simp add: strip_def lstrip_def rstrip_def isspace_def ustr_def)
  ultimately have ans: "fst (document_qna_tool ?S (ustr ''a.pdf'') (ustr ''Germany?'')) =
      ustr ''Answer: Berlin''"
    by simp
  have m: "ustr ''An error occurred during Document Q&A: '' @ ustr ''4''
      = ustr ''An error occurred during Document Q&A: 4''"
    by (simp add: ustr_def)
  have "process_input
        (agent ?S (\<lambda>_ _. Inr []) (\<lambda>_ _. Inr []) (ustr ''image_generator'', \<lambda>_ _. Inr [])
           (ustr ''web_search'', \<lambda>_ _. Inr []) (ustr ''final_answer'', \<lambda>_ _. Inr [])
           (\<lambda>q. Inr q))
        (Some (ustr ''Germany?'')) (Some \<lparr>name = ustr ''a.pdf''\<rparr>)
      = ustr ''An error occurred during Document Q&A: 4''"
    unfolding agent_def by (simp only: process_input_on_dict [OF strip_question] m)
  with ans show ?thesis by blast
qed

text \<open>
  C9. The Document Q&A tool is at position 4 of the list of tools given to the agent of
  \<open>app.py\<close>, and the subscript 4 of that agent's \<open>tools\<close> raises a \<open>KeyError\<close>. For an
  agent built from two tools, an uploaded file and a question, \<open>process_input\<close> returns
  the message of a failed Document Q&A, and not the message that the tool was not found.
\<close>

theorem subscript_four_misses_the_tool:
  "registered_tools (stub (Inr []) (Inr []) (Inr [])) (\<lambda>_ _. Inr []) (\<lambda>_ _. Inr [])
       (ustr ''image_generator'', \<lambda>_ _. Inr []) (ustr ''web_search'', \<lambda>_ _. Inr [])
       (ustr ''final_answer'', \<lambda>_ _. Inr []) ! 4
     = (ustr ''document_qna_tool'', document_qna (stub (Inr []) (Inr []) (Inr [])))
   \<and> subscript (tools (agent (stub (Inr []) (Inr []) (Inr [])) (\<lambda>_ _. Inr []) (\<lambda>_ _. Inr [])
         (ustr ''image_generator'', \<lambda>_ _. Inr []) (ustr ''web_search'', \<lambda>_ _. Inr [])
         (ustr ''final_answer'', \<lambda>_ _. Inr []) (\<lambda>q. Inr q))) 4
     = Inl (Exc KeyError (ustr ''4''))
   \<and> process_input
        \<lparr>tools = PyDict (tools_dict [(ustr ''get_current_weather'', \<lambda>_ _. Inr []),
                                      (ustr ''final_answer'', \<lambda>_ _. Inr [])]),
         run = (\<lambda>q. Inr q)\<rparr>
        (Some (ustr ''Germany?'')) (Some \<lparr>name = ustr ''a.pdf''\<rparr>)
      = ustr ''An error occurred during Document Q&A: 4''"
proof -
  have m: "ustr ''An error occurred during Document Q&A: '' @ ustr ''4''
      = ustr ''An error occurred during Document Q&A: 4''"
    by (simp add: ustr_def)
  have a: "registered_tools (stub (Inr []) (Inr []) (Inr [])) (\<lambda>_ _. Inr []) (\<lambda>_ _. Inr [])
       (ustr ''image_generator'', \<lambda>_ _. Inr []) (ustr ''web_search'', \<lambda>_ _. Inr [])
       (ustr ''final_answer'', \<lambda>_ _. Inr []) ! 4
     = (ustr ''document_qna_tool'', document_qna (stub (Inr []) (Inr []) (Inr [])))"
    by (simp add: registered_tools_def)
  have b: "subscript (tools (agent (stub (Inr []) (Inr []) (Inr [])) (\<lambda>_ _. Inr []) (\<lambda>_ _. Inr [])
         (ustr ''image_generator'', \<lambda>_ _. Inr []) (ustr ''web_search'', \<lambda>_ _. Inr [])
         (ustr ''final_answer'', \<lambda>_ _. Inr []) (\<lambda>q. Inr q))) 4
     = Inl (Exc KeyError (ustr ''4''))"
    by (simp add: agent_def tools_dict_int_key str_nat_4)
  have c: "process_input
        \<lparr>tools = PyDict (tools_dict [(ustr ''get_current_weather'', \<lambda>_ _. Inr []),
                                      (ustr ''final_answer'', \<lambda>_ _. Inr [])]),
         run = (\<lambda>q. Inr q)\<rparr>
        (Some (ustr ''Germany?'')) (Some \<lparr>name = ustr ''a.pdf''\<rparr>)
      = ustr ''An error occurred during Document Q&A: 4''"
    by (simp only: process_input_on_dict [OF strip_question] m)
  from a b c show ?thesis by blast
qed



end
